theory Spec2Isabelle
  imports Main "HOL-Library.Word"
begin

section \<open>SavingsPool and ReceiptNFT: a shallow embedding\<close>

text \<open>
  The two Solidity contracts of the repository (\<^verbatim>\<open>SavingsPool\<close>, the accounting engine,
  and \<^verbatim>\<open>ReceiptNFT\<close>, the certificate authority) as HOL functions over an explicit
  world state. A call that reverts returns \<open>Inl\<close> of the reason; a call that succeeds
  returns \<open>Inr\<close> of its result and the world after it. Unsigned integers are words of
  the width the source declares; Solidity 0.8 checks \<open>+\<close>, \<open>-\<close> and \<open>*\<close> and reverts
  with a panic on overflow, while an explicit narrowing cast such as \<^verbatim>\<open>uint128(amount)\<close>
  truncates silently.
\<close>

subsection \<open>Data\<close>

type_synonym address = "160 word"
type_synonym uint256 = "256 word"

text \<open>
  The reasons a call reverts with. \<open>NotActive\<close> is \<^verbatim>\<open>"!active"\<close>, \<open>NotOwner\<close> is
  \<^verbatim>\<open>"!owner"\<close>, \<open>ZeroAmount\<close> is \<^verbatim>\<open>"amount=0"\<close>, \<open>RateTooHigh\<close> is
  \<^verbatim>\<open>"apr too high"\<close>, \<open>TransferFailed\<close> is \<^verbatim>\<open>"xfer failed"\<close>, \<open>PoolZero\<close> is
  \<^verbatim>\<open>"pool=0"\<close>, \<open>ReceiptZero\<close> is \<^verbatim>\<open>"receipt=0"\<close>, \<open>NotPool\<close> is the custom error \<^verbatim>\<open>NotPool()\<close> (the authority's
  Unauthorized), \<open>Unauthorized\<close> is the failure of \<^verbatim>\<open>onlyOwner\<close>, \<open>ReentrantCall\<close> the
  failure of \<^verbatim>\<open>nonReentrant\<close>, \<open>DuplicateId\<close> and \<open>NotFound\<close> the identity failures of
  the certificate registry, and \<open>Panic\<close> the arithmetic panic of checked arithmetic.
\<close>

datatype error =
    NotActive
  | NotOwner
  | ZeroAmount
  | RateTooHigh
  | TransferFailed
  | PoolZero
  | ReceiptZero
  | NotPool
  | Unauthorized
  | ReentrantCall
  | DuplicateId
  | NotFound
  | Panic

text \<open>\<^verbatim>\<open>struct Position { uint128 principal; uint64 start; bool active; }\<close>\<close>

record Position =
  principal :: "128 word"
  start :: "64 word"
  active :: bool

datatype event =
    Deposited uint256 address uint256
  | Withdrawn uint256 address uint256
  | AprUpdated uint256 uint256
  | Issued address uint256

text \<open>
  Storage of \<^verbatim>\<open>SavingsPool\<close>: the owner of \<^verbatim>\<open>Ownable\<close>, the flag of
  \<^verbatim>\<open>ReentrancyGuard\<close> (\<open>entered\<close> is \<^verbatim>\<open>_status == _ENTERED\<close>), \<^verbatim>\<open>aprBps\<close>,
  \<^verbatim>\<open>nextId\<close>, the mapping \<^verbatim>\<open>positions\<close> (a Solidity mapping is total: a key never
  written reads as the all-zero struct) and the native balance the contract holds.
\<close>

record SavingsPool =
  owner :: address
  entered :: bool
  aprBps :: uint256
  nextId :: uint256
  positions :: "uint256 \<Rightarrow> Position"
  balance :: nat

text \<open>
  Storage of \<^verbatim>\<open>ReceiptNFT\<close>: its own \<^verbatim>\<open>Ownable\<close> owner, the bound \<^verbatim>\<open>pool\<close>, and the
  registry it inherits: the holder of each certificate and its optional metadata URI.
\<close>

record ReceiptNFT =
  nft_owner :: address
  pool :: address
  holders :: "uint256 \<rightharpoonup> address"
  tokenURIs :: "uint256 \<rightharpoonup> string"

text \<open>
  The world: the address the pool is deployed at (\<open>this\<close>, what the authority sees as
  \<^verbatim>\<open>msg.sender\<close> when the pool calls it), both contracts' storage and the event log.
\<close>

record world =
  this :: address
  sp :: SavingsPool
  nft :: ReceiptNFT
  log :: "event list"

text \<open>What a call sees of its transaction: \<^verbatim>\<open>msg.sender\<close>, \<^verbatim>\<open>msg.value\<close>, \<^verbatim>\<open>block.timestamp\<close>.\<close>

record env =
  msg_sender :: address
  msg_value :: uint256
  block_timestamp :: uint256

subsection \<open>Checked arithmetic of Solidity 0.8\<close>

definition checked_add :: "uint256 \<Rightarrow> uint256 \<Rightarrow> error + uint256" where
  "checked_add a b = (if unat a + unat b < 2 ^ 256 then Inr (a + b) else Inl Panic)"

definition checked_sub :: "uint256 \<Rightarrow> uint256 \<Rightarrow> error + uint256" where
  "checked_sub a b = (if unat b \<le> unat a then Inr (a - b) else Inl Panic)"

definition checked_mul :: "uint256 \<Rightarrow> uint256 \<Rightarrow> error + uint256" where
  "checked_mul a b = (if unat a * unat b < 2 ^ 256 then Inr (a * b) else Inl Panic)"

text \<open>\<^verbatim>\<open>365 days * 10000\<close>: the seconds of a 365-day year times the basis-point scale.\<close>

definition year_bps :: uint256 where
  "year_bps = 31536000 * 10000"

subsection \<open>SavingsPool: the view functions\<close>

text \<open>
  \<^verbatim>\<open>accrued\<close>: the position is copied from storage, must be active, the elapsed time is
  a checked subtraction, the product is two checked multiplications, the division by
  the constant truncates.
\<close>

definition accrued :: "env \<Rightarrow> world \<Rightarrow> uint256 \<Rightarrow> error + uint256" where
  "accrued e w tokenId =
     (let p = positions (sp w) tokenId in
      if \<not> active p then Inl NotActive
      else case checked_sub (block_timestamp e) (ucast (start p)) of
        Inl x \<Rightarrow> Inl x
      | Inr dt \<Rightarrow>
          (case checked_mul (ucast (principal p)) (aprBps (sp w)) of
            Inl x \<Rightarrow> Inl x
          | Inr m \<Rightarrow>
              (case checked_mul m dt of
                Inl x \<Rightarrow> Inl x
              | Inr n \<Rightarrow> Inr (n div year_bps))))"

definition payoutOf :: "env \<Rightarrow> world \<Rightarrow> uint256 \<Rightarrow> error + uint256" where
  "payoutOf e w tokenId =
     (let p = positions (sp w) tokenId in
      if \<not> active p then Inl NotActive
      else case accrued e w tokenId of
        Inl x \<Rightarrow> Inl x
      | Inr a \<Rightarrow> checked_add (ucast (principal p)) a)"

subsection \<open>ReceiptNFT\<close>

text \<open>
  \<^verbatim>\<open>modifier onlyPool() { if (msg.sender != pool) revert NotPool(); _; }\<close>
\<close>

definition onlyPool :: "env \<Rightarrow> world \<Rightarrow> error + unit" where
  "onlyPool e w = (if msg_sender e \<noteq> pool (nft w) then Inl NotPool else Inr ())"

text \<open>
  Modelled from the spec: \<^verbatim>\<open>_safeMint\<close> belongs to the ERC-721 base contract, which is
  not among the repository's files. The spec (section 4.1) says of mint: it fails with
  DuplicateId if the id already has a holder, creates the holder entry, and an issuance
  event is observable.
\<close>

definition safeMint :: "world \<Rightarrow> address \<Rightarrow> uint256 \<Rightarrow> error + world" where
  "safeMint w to tokenId =
     (if holders (nft w) tokenId \<noteq> None then Inl DuplicateId
      else Inr (w\<lparr>nft := (nft w)\<lparr>holders := (holders (nft w))(tokenId \<mapsto> to)\<rparr>,
                  log := log w @ [Issued to tokenId]\<rparr>))"

text \<open>
  Modelled from the spec: \<^verbatim>\<open>_setTokenURI\<close> belongs to the ERC-721 URI-storage base
  contract, which is not among the repository's files. The spec says a certificate has
  an optional metadata string and that mint creates the holder/metadata entry.
\<close>

definition setTokenURI :: "world \<Rightarrow> uint256 \<Rightarrow> string \<Rightarrow> world" where
  "setTokenURI w tokenId uri =
     w\<lparr>nft := (nft w)\<lparr>tokenURIs := (tokenURIs (nft w))(tokenId \<mapsto> uri)\<rparr>\<rparr>"

text \<open>
  Modelled from the spec: \<^verbatim>\<open>_burn\<close> belongs to the ERC-721 base contracts, which are
  not among the repository's files. The spec says of burn: it fails with NotFound if
  the id has no holder and removes the entry permanently.
\<close>

definition burn_entry :: "world \<Rightarrow> uint256 \<Rightarrow> error + world" where
  "burn_entry w tokenId =
     (if holders (nft w) tokenId = None then Inl NotFound
      else Inr (w\<lparr>nft := (nft w)\<lparr>holders := (holders (nft w))(tokenId := None),
                                 tokenURIs := (tokenURIs (nft w))(tokenId := None)\<rparr>\<rparr>))"

text \<open>
  Modelled from the spec: \<^verbatim>\<open>ownerOf\<close> belongs to the ERC-721 base contract, which is not
  among the repository's files. The spec says: it fails with NotFound if there is no
  holder and is otherwise a pure lookup.
\<close>

definition ownerOf :: "world \<Rightarrow> uint256 \<Rightarrow> error + address" where
  "ownerOf w tokenId =
     (case holders (nft w) tokenId of None \<Rightarrow> Inl NotFound | Some h \<Rightarrow> Inr h)"

text \<open>
  \<^verbatim>\<open>function mint(address to, uint256 tokenId, string calldata uri) external onlyPool\<close>:
  the safe mint, then the URI when \<^verbatim>\<open>bytes(uri).length != 0\<close>.
\<close>

definition mint :: "env \<Rightarrow> world \<Rightarrow> address \<Rightarrow> uint256 \<Rightarrow> string \<Rightarrow> error + world" where
  "mint e w to tokenId uri =
     (case onlyPool e w of
        Inl x \<Rightarrow> Inl x
      | Inr _ \<Rightarrow>
          (case safeMint w to tokenId of
             Inl x \<Rightarrow> Inl x
           | Inr w1 \<Rightarrow> Inr (if length uri \<noteq> 0 then setTokenURI w1 tokenId uri else w1)))"

text \<open>\<^verbatim>\<open>function burn(uint256 tokenId) external onlyPool { _burn(tokenId); }\<close>\<close>

definition burn :: "env \<Rightarrow> world \<Rightarrow> uint256 \<Rightarrow> error + world" where
  "burn e w tokenId =
     (case onlyPool e w of Inl x \<Rightarrow> Inl x | Inr _ \<Rightarrow> burn_entry w tokenId)"

text \<open>
  Modelled from the spec: \<^verbatim>\<open>onlyOwner\<close> belongs to the \<^verbatim>\<open>Ownable\<close> base contract, which
  is not among the repository's files. The spec says an administrator-only operation
  fails with Unauthorized for every caller but the administrator. This is the modifier
  as \<^verbatim>\<open>ReceiptNFT\<close> inherits it.
\<close>

definition onlyOwnerNFT :: "env \<Rightarrow> world \<Rightarrow> error + unit" where
  "onlyOwnerNFT e w = (if msg_sender e \<noteq> nft_owner (nft w) then Inl Unauthorized else Inr ())"

text \<open>
  \<^verbatim>\<open>function setPool(address _pool) external onlyOwner\<close>, with
  \<^verbatim>\<open>require(_pool != address(0), "pool=0")\<close>.
\<close>

definition setPool :: "env \<Rightarrow> world \<Rightarrow> address \<Rightarrow> error + world" where
  "setPool e w p =
     (case onlyOwnerNFT e w of
        Inl x \<Rightarrow> Inl x
      | Inr _ \<Rightarrow>
          if p = 0 then Inl PoolZero
          else Inr (w\<lparr>nft := (nft w)\<lparr>pool := p\<rparr>\<rparr>))"

subsection \<open>SavingsPool: the modifiers\<close>

text \<open>
  Modelled from the spec: \<^verbatim>\<open>onlyOwner\<close> belongs to the \<^verbatim>\<open>Ownable\<close> base contract, which
  is not among the repository's files. The spec says an administrator-only operation
  fails with Unauthorized for every caller but the administrator. This is the modifier
  as \<^verbatim>\<open>SavingsPool\<close> inherits it.
\<close>

definition onlyOwner :: "env \<Rightarrow> world \<Rightarrow> error + unit" where
  "onlyOwner e w = (if msg_sender e \<noteq> owner (sp w) then Inl Unauthorized else Inr ())"

definition set_entered :: "bool \<Rightarrow> world \<Rightarrow> world" where
  "set_entered b w = w\<lparr>sp := (sp w)\<lparr>entered := b\<rparr>\<rparr>"

text \<open>
  Modelled from the spec: \<^verbatim>\<open>nonReentrant\<close> belongs to the \<^verbatim>\<open>ReentrancyGuard\<close> base
  contract, which is not among the repository's files. The spec (section 5) describes
  it as a guard that rejects any reentrant call into a protected operation while one is
  already in progress: the flag is tested on entry, set for the body and cleared after
  it.
\<close>

definition nonReentrant :: "world \<Rightarrow> (world \<Rightarrow> error + 'a \<times> world) \<Rightarrow> error + 'a \<times> world" where
  "nonReentrant w body =
     (if entered (sp w) then Inl ReentrantCall
      else case body (set_entered True w) of
        Inl x \<Rightarrow> Inl x
      | Inr (r, w') \<Rightarrow> Inr (r, set_entered False w'))"

definition emit :: "event \<Rightarrow> world \<Rightarrow> world" where
  "emit ev w = w\<lparr>log := log w @ [ev]\<rparr>"

subsection \<open>SavingsPool: the state-changing functions\<close>

text \<open>
  The constructor: \<^verbatim>\<open>require(_receipt != address(0))\<close>, \<^verbatim>\<open>require(_aprBps <= 5000)\<close>,
  the rate is stored, every other slot is zero and the deployer owns the contract.
  The authority's address is the one certificate contract of the world, so only its
  being non-zero is kept as the argument \<open>receipt\<close>.
\<close>

definition pool_constructor ::
  "env \<Rightarrow> address \<Rightarrow> ReceiptNFT \<Rightarrow> uint256 \<Rightarrow> address \<Rightarrow> error + world" where
  "pool_constructor e self authority bps receipt =
     (if receipt = 0 then Inl ReceiptZero
      else if \<not> bps \<le> 5000 then Inl RateTooHigh
      else Inr \<lparr>this = self,
                sp = \<lparr>owner = msg_sender e, entered = False, aprBps = bps, nextId = 0,
                      positions = (\<lambda>_. \<lparr>principal = 0, start = 0, active = False\<rparr>),
                      balance = 0\<rparr>,
                nft = authority, log = []\<rparr>)"

text \<open>
  \<^verbatim>\<open>function setApr(uint256 bps) external onlyOwner\<close>: the modifier runs first, then
  \<^verbatim>\<open>require(bps <= 5000, "apr too high")\<close>, the store and the event.
\<close>

definition setApr :: "env \<Rightarrow> world \<Rightarrow> uint256 \<Rightarrow> error + unit \<times> world" where
  "setApr e w bps =
     (case onlyOwner e w of
        Inl x \<Rightarrow> Inl x
      | Inr _ \<Rightarrow>
          if \<not> bps \<le> 5000 then Inl RateTooHigh
          else let old = aprBps (sp w) in
            Inr ((), emit (AprUpdated old bps) (w\<lparr>sp := (sp w)\<lparr>aprBps := bps\<rparr>\<rparr>)))"

text \<open>
  \<^verbatim>\<open>_depositWithURI\<close>: the amount check, the checked pre-increment of \<^verbatim>\<open>nextId\<close>, the
  position written with the two narrowing casts, the mint the pool asks of the
  authority (so the authority sees the pool as \<^verbatim>\<open>msg.sender\<close>), and the event.
\<close>

definition depositWithURI_internal :: "env \<Rightarrow> world \<Rightarrow> string \<Rightarrow> error + uint256 \<times> world" where
  "depositWithURI_internal e w uri =
     (let amount = msg_value e in
      if \<not> 0 < amount then Inl ZeroAmount
      else case checked_add (nextId (sp w)) 1 of
        Inl x \<Rightarrow> Inl x
      | Inr tokenId \<Rightarrow>
          (let w1 = w\<lparr>sp := (sp w)\<lparr>nextId := tokenId,
                        positions := (positions (sp w))
                          (tokenId := \<lparr>principal = ucast amount,
                                       start = ucast (block_timestamp e),
                                       active = True\<rparr>)\<rparr>\<rparr>
           in case mint (e\<lparr>msg_sender := this w1, msg_value := 0\<rparr>) w1 (msg_sender e) tokenId uri of
             Inl x \<Rightarrow> Inl x
           | Inr w2 \<Rightarrow> Inr (tokenId, emit (Deposited tokenId (msg_sender e) amount) w2)))"

text \<open>A payable call credits \<^verbatim>\<open>msg.value\<close> to the contract before its body runs.\<close>

definition receive_value :: "env \<Rightarrow> world \<Rightarrow> world" where
  "receive_value e w = w\<lparr>sp := (sp w)\<lparr>balance := balance (sp w) + unat (msg_value e)\<rparr>\<rparr>"

text \<open>\<^verbatim>\<open>function deposit() external payable nonReentrant\<close>: the empty URI.\<close>

definition deposit :: "env \<Rightarrow> world \<Rightarrow> error + uint256 \<times> world" where
  "deposit e w = nonReentrant (receive_value e w) (\<lambda>w'. depositWithURI_internal e w' [])"

text \<open>\<^verbatim>\<open>function depositWithURI(string calldata uri) external payable nonReentrant\<close>\<close>

definition depositWithURI :: "env \<Rightarrow> world \<Rightarrow> string \<Rightarrow> error + uint256 \<times> world" where
  "depositWithURI e w uri = nonReentrant (receive_value e w) (\<lambda>w'. depositWithURI_internal e w' uri)"

text \<open>
  \<^verbatim>\<open>msg.sender.call{ value: pay }("")\<close>: the call fails when the contract holds less than
  \<open>pay\<close>; otherwise the value leaves the contract and the receiver's code runs on the
  world as it then stands. The receiver is a parameter: it answers whether it accepts
  and returns the world its own calls left behind.
\<close>

type_synonym receiver = "world \<Rightarrow> bool \<times> world"

definition call_value :: "receiver \<Rightarrow> world \<Rightarrow> uint256 \<Rightarrow> bool \<times> world" where
  "call_value recv w pay =
     (if balance (sp w) < unat pay then (False, w)
      else recv (w\<lparr>sp := (sp w)\<lparr>balance := balance (sp w) - unat pay\<rparr>\<rparr>))"

text \<open>
  \<^verbatim>\<open>function withdraw(uint256 tokenId) external nonReentrant\<close>. \<open>p\<close> is a storage
  reference, so \<^verbatim>\<open>p.active = false\<close> writes the mapping; the payout is then
  \<^verbatim>\<open>uint256(p.principal) + accrued(tokenId)\<close>, where \<^verbatim>\<open>accrued\<close> reads the mapping as it
  stands after that write.
\<close>

definition close_position :: "world \<Rightarrow> uint256 \<Rightarrow> world" where
  "close_position w tokenId =
     w\<lparr>sp := (sp w)\<lparr>positions := (positions (sp w))
                        (tokenId := (positions (sp w) tokenId)\<lparr>active := False\<rparr>)\<rparr>\<rparr>"

definition withdraw_body :: "receiver \<Rightarrow> env \<Rightarrow> uint256 \<Rightarrow> world \<Rightarrow> error + unit \<times> world" where
  "withdraw_body recv e tokenId w =
     (if \<not> active (positions (sp w) tokenId) then Inl NotActive
      else case ownerOf w tokenId of
        Inl x \<Rightarrow> Inl x
      | Inr holder \<Rightarrow>
          if holder \<noteq> msg_sender e then Inl NotOwner
          else let w1 = close_position w tokenId in
            (case accrued e w1 tokenId of
               Inl x \<Rightarrow> Inl x
             | Inr a \<Rightarrow>
                 (case checked_add (ucast (principal (positions (sp w1) tokenId))) a of
                    Inl x \<Rightarrow> Inl x
                  | Inr pay \<Rightarrow>
                      (case burn (e\<lparr>msg_sender := this w1, msg_value := 0\<rparr>) w1 tokenId of
                         Inl x \<Rightarrow> Inl x
                       | Inr w2 \<Rightarrow>
                           (case call_value recv w2 pay of
                              (ok, w3) \<Rightarrow>
                                if \<not> ok then Inl TransferFailed
                                else Inr ((), emit (Withdrawn tokenId (msg_sender e) pay) w3))))))"


definition withdraw :: "receiver \<Rightarrow> env \<Rightarrow> world \<Rightarrow> uint256 \<Rightarrow> error + unit \<times> world" where
  "withdraw recv e w tokenId = nonReentrant w (withdraw_body recv e tokenId)"

text \<open>
  A transaction is atomic: when the call reverts, the world is the one before it.
\<close>

definition transact :: "(world \<Rightarrow> error + 'a \<times> world) \<Rightarrow> world \<Rightarrow> (error + 'a) \<times> world" where
  "transact f w = (case f w of Inl x \<Rightarrow> (Inl x, w) | Inr (r, w') \<Rightarrow> (Inr r, w'))"

subsection \<open>Operations and traces\<close>

text \<open>
  The external functions that change state, as one type of operations. A withdrawal
  carries the code of the account that receives the payout.
\<close>

datatype op =
    SetApr uint256
  | Deposit
  | DepositWithURI string
  | Withdraw receiver uint256
  | SetPool address
  | Mint address uint256 string
  | Burn uint256

definition drop_result :: "error + 'a \<times> world \<Rightarrow> error + world" where
  "drop_result r = (case r of Inl x \<Rightarrow> Inl x | Inr (_, w) \<Rightarrow> Inr w)"

fun call :: "env \<Rightarrow> op \<Rightarrow> world \<Rightarrow> error + world" where
  "call e (SetApr bps) w = drop_result (setApr e w bps)"
| "call e Deposit w = drop_result (deposit e w)"
| "call e (DepositWithURI uri) w = drop_result (depositWithURI e w uri)"
| "call e (Withdraw recv tokenId) w = drop_result (withdraw recv e w tokenId)"
| "call e (SetPool p) w = setPool e w p"
| "call e (Mint to tokenId uri) w = mint e w to tokenId uri"
| "call e (Burn tokenId) w = burn e w tokenId"

text \<open>One transaction: the world after the call, or the world before it when it reverts.\<close>

definition exec :: "env \<times> op \<Rightarrow> world \<Rightarrow> world" where
  "exec t w = (case call (fst t) (snd t) w of Inl _ \<Rightarrow> w | Inr w' \<Rightarrow> w')"

definition run :: "world \<Rightarrow> (env \<times> op) list \<Rightarrow> world" where
  "run w ts = fold exec ts w"

text \<open>A position id that has been handed out: ids start at 1 and \<^verbatim>\<open>nextId\<close> is the last one.\<close>

definition created :: "world \<Rightarrow> uint256 \<Rightarrow> bool" where
  "created w tokenId = (0 < tokenId \<and> tokenId \<le> nextId (sp w))"

text \<open>
  An id that has not been handed out reads as the all-zero position: this is what a
  nonexistent position is.
\<close>

definition unborn :: "world \<Rightarrow> bool" where
  "unborn w = (\<forall>tokenId. \<not> created w tokenId \<longrightarrow>
      positions (sp w) tokenId = \<lparr>principal = 0, start = 0, active = False\<rparr>)"

subsection \<open>A concrete deployment\<close>

text \<open>
  The scenario of the spec's section 8: the authority is deployed and bound to the
  pool, the pool is deployed with a rate of 500 basis points, and one account deposits
  1,000,000 units at time 0.
\<close>

definition admin :: address where
  "admin = 0xAD"

definition alice :: address where
  "alice = 0xA11CE"

definition pool_address :: address where
  "pool_address = 0x5A"

definition authority0 :: ReceiptNFT where
  "authority0 = \<lparr>nft_owner = admin, pool = pool_address,
                  holders = Map.empty, tokenURIs = Map.empty\<rparr>"

definition world0 :: world where
  "world0 = \<lparr>this = pool_address,
             sp = \<lparr>owner = admin, entered = False, aprBps = 500, nextId = 0,
                   positions = (\<lambda>_. \<lparr>principal = 0, start = 0, active = False\<rparr>),
                   balance = 0\<rparr>,
             nft = authority0, log = []\<rparr>"

definition at_time :: "address \<Rightarrow> uint256 \<Rightarrow> uint256 \<Rightarrow> env" where
  "at_time sender val t = \<lparr>msg_sender = sender, msg_value = val, block_timestamp = t\<rparr>"

definition world1 :: world where
  "world1 = exec (at_time alice 1000000 0, Deposit) world0"



text \<open>
  A receiver that, when paid, calls \<^verbatim>\<open>withdraw\<close> again on the same id (its own nested
  call is paid to a receiver that just accepts), ignores whether that call reverted,
  and accepts the payment.
\<close>

definition accepting :: receiver where
  "accepting w = (True, w)"


definition world_late :: world where
  "world_late = exec (at_time alice 1000000 100, Deposit) world0"

definition world_big :: world where
  "world_big = exec (at_time alice (2 ^ 127) 0, Deposit) world0"

definition world_trunc :: world where
  "world_trunc = exec (at_time alice (2 ^ 128 + 7) 0, Deposit) world0"

subsection \<open>The interest formula in the spec's words\<close>

text \<open>
  Section 4.2 of the spec:
  \<^verbatim>\<open>floor(principal * rateBps * elapsedSeconds / (secondsPerYear * 10000))\<close> with a
  365-day year, over the natural numbers. The code's \<open>accrued\<close> is compared with it.
\<close>

definition spec_interest :: "nat \<Rightarrow> nat \<Rightarrow> nat \<Rightarrow> nat" where
  "spec_interest p rateBps elapsedSeconds =
     (p * rateBps * elapsedSeconds) div (31536000 * 10000)"

section \<open>Properties\<close>

subsection \<open>Casts and constants\<close>

lemma unat_ucast_128: "unat (ucast (x :: 128 word) :: 256 word) = unat x"
proof -
  have "unat x < 2 ^ 128" using unsigned_less [of x] by simp
  then have "unat x < 2 ^ 256" by (rule less_le_trans) simp
  then show ?thesis by (simp add: unsigned_ucast_eq take_bit_nat_eq_self)
qed

lemma unat_ucast_64: "unat (ucast (x :: 64 word) :: 256 word) = unat x"
proof -
  have "unat x < 2 ^ 64" using unsigned_less [of x] by simp
  then have "unat x < 2 ^ 256" by (rule less_le_trans) simp
  then show ?thesis by (simp add: unsigned_ucast_eq take_bit_nat_eq_self)
qed

lemma unat_ucast_down_128: "unat (ucast (x :: 256 word) :: 128 word) = unat x mod 2 ^ 128"
  by (simp add: unsigned_ucast_eq take_bit_eq_mod)

lemma unat_ucast_down_64: "unat (ucast (x :: 256 word) :: 64 word) = unat x mod 2 ^ 64"
  by (simp add: unsigned_ucast_eq take_bit_eq_mod)

lemma unat_year_bps: "unat year_bps = 315360000000"
  by (simp add: year_bps_def)

subsection \<open>What \<open>accrued\<close> computes\<close>

lemma accrued_inactive:
  "\<not> active (positions (sp w) tokenId) \<Longrightarrow> accrued e w tokenId = Inl NotActive"
  by (simp add: accrued_def)

lemma accrued_cases:
  "accrued e w tokenId =
     (let p = positions (sp w) tokenId;
          P = unat (principal p); r = unat (aprBps (sp w));
          t = unat (block_timestamp e); s = unat (start p)
      in if \<not> active p then Inl NotActive
         else if t < s then Inl Panic
         else if 2 ^ 256 \<le> P * r \<or> 2 ^ 256 \<le> P * r * (t - s) then Inl Panic
         else Inr (of_nat (P * r * (t - s) div 315360000000)))"
proof -
  define p where "p = positions (sp w) tokenId"
  define P where "P = unat (principal p)"
  define r where "r = unat (aprBps (sp w))"
  define t where "t = unat (block_timestamp e)"
  define s where "s = unat (start p)"
  note unfolds = accrued_def checked_sub_def checked_mul_def unat_ucast_64
    unat_ucast_128 p_def [symmetric] t_def [symmetric] s_def [symmetric]
    P_def [symmetric] r_def [symmetric] Let_def
  show ?thesis
  proof (cases "active p")
    case False
    then show ?thesis by (simp add: accrued_def p_def)
  next
    case act: True
    show ?thesis
    proof (cases "t < s")
      case True
      then show ?thesis using act by (simp add: unfolds)
    next
      case ts: False
      have dt: "unat (block_timestamp e - ucast (start p)) = t - s"
        using ts by (simp add: unat_sub_if' unat_ucast_64 t_def s_def)
      show ?thesis
      proof (cases "2 ^ 256 \<le> P * r")
        case True
        then show ?thesis using act ts by (simp add: unfolds)
      next
        case pr: False
        have m: "unat (ucast (principal p) * aprBps (sp w) :: uint256) = P * r"
          using pr unat_mult_lem [of "ucast (principal p) :: uint256" "aprBps (sp w)"]
          by (simp add: unat_ucast_128 P_def r_def)
        show ?thesis
        proof (cases "2 ^ 256 \<le> P * r * (t - s)")
          case True
          then show ?thesis using act ts pr m dt by (simp add: unfolds)
        next
          case prd: False
          have n: "unat (ucast (principal p) * aprBps (sp w)
                     * (block_timestamp e - ucast (start p)) :: uint256) = P * r * (t - s)"
            using prd m dt
              unat_mult_lem [of "ucast (principal p) * aprBps (sp w) :: uint256"
                "block_timestamp e - ucast (start p)"]
            by simp
          have lt: "P * r * (t - s) div 315360000000 < 2 ^ 256"
            using prd by (simp add: div_le_dividend [THEN le_less_trans])
          have "unat (ucast (principal p) * aprBps (sp w)
                  * (block_timestamp e - ucast (start p)) div year_bps)
                  = unat (of_nat (P * r * (t - s) div 315360000000) :: uint256)"
            using lt by (simp add: unat_div n unat_year_bps unat_of_nat)
          then have "ucast (principal p) * aprBps (sp w)
                  * (block_timestamp e - ucast (start p)) div year_bps
                  = (of_nat (P * r * (t - s) div 315360000000) :: uint256)"
            by (simp only: word_unat_eq_iff)
          then show ?thesis using act ts pr prd m dt by (simp add: unfolds)
        qed
      qed
    qed
  qed
qed

text \<open>
  With a rate that respects the cap of 5000 and a clock below \<open>2 ^ 64\<close>, neither
  product can overflow.
\<close>

lemma products_fit:
  fixes p :: "128 word" and r t :: uint256 and s :: "64 word"
  assumes "r \<le> 5000" and "unat t < 2 ^ 64"
  shows "unat p * unat r < 2 ^ 256"
    and "unat p * unat r * (unat t - unat s) < 2 ^ 256"
proof -
  have "unat p < 2 ^ 128" using unsigned_less [of p] by simp
  then have p: "unat p \<le> 2 ^ 128" by simp
  have r: "unat r \<le> 5000" using assms(1) by (simp add: word_le_nat_alt)
  have d: "unat t - unat s \<le> 2 ^ 64" using assms(2) by simp
  have pr: "unat p * unat r \<le> 2 ^ 128 * 5000" using p r by (rule mult_le_mono)
  then show "unat p * unat r < 2 ^ 256" by simp
  have "unat p * unat r * (unat t - unat s) \<le> 2 ^ 128 * 5000 * 2 ^ 64"
    using pr d by (rule mult_le_mono)
  then show "unat p * unat r * (unat t - unat s) < 2 ^ 256" by simp
qed

subsection \<open>The concrete deployment, evaluated\<close>

lemma deposit_world0:
  "0 < v \<Longrightarrow> exec (at_time a v t, Deposit) world0 =
     \<lparr>this = pool_address,
      sp = \<lparr>owner = admin, entered = False, aprBps = 500, nextId = 1,
            positions = (\<lambda>_. \<lparr>principal = 0, start = 0, active = False\<rparr>)
              (1 := \<lparr>principal = ucast v, start = ucast t, active = True\<rparr>),
            balance = unat v\<rparr>,
      nft = \<lparr>nft_owner = admin, pool = pool_address,
             holders = [1 \<mapsto> a], tokenURIs = Map.empty\<rparr>,
      log = [Issued a 1, Deposited 1 a v]\<rparr>"
  by (simp add: exec_def drop_result_def deposit_def nonReentrant_def
      depositWithURI_internal_def receive_value_def set_entered_def checked_add_def
      mint_def onlyPool_def safeMint_def emit_def world0_def authority0_def at_time_def
      pool_address_def)

lemma world1_eq:
  "world1 = \<lparr>this = pool_address,
             sp = \<lparr>owner = admin, entered = False, aprBps = 500, nextId = 1,
                   positions = (\<lambda>_. \<lparr>principal = 0, start = 0, active = False\<rparr>)
                     (1 := \<lparr>principal = 1000000, start = 0, active = True\<rparr>),
                   balance = 1000000\<rparr>,
             nft = \<lparr>nft_owner = admin, pool = pool_address,
                    holders = [1 \<mapsto> alice], tokenURIs = Map.empty\<rparr>,
             log = [Issued alice 1, Deposited 1 alice 1000000]\<rparr>"
  by (simp add: world1_def deposit_world0)

lemma world_late_eq:
  "world_late = \<lparr>this = pool_address,
             sp = \<lparr>owner = admin, entered = False, aprBps = 500, nextId = 1,
                   positions = (\<lambda>_. \<lparr>principal = 0, start = 0, active = False\<rparr>)
                     (1 := \<lparr>principal = 1000000, start = 100, active = True\<rparr>),
                   balance = 1000000\<rparr>,
             nft = \<lparr>nft_owner = admin, pool = pool_address,
                    holders = [1 \<mapsto> alice], tokenURIs = Map.empty\<rparr>,
             log = [Issued alice 1, Deposited 1 alice 1000000]\<rparr>"
  by (simp add: world_late_def deposit_world0)

lemma world_big_eq:
  "world_big = \<lparr>this = pool_address,
             sp = \<lparr>owner = admin, entered = False, aprBps = 500, nextId = 1,
                   positions = (\<lambda>_. \<lparr>principal = 0, start = 0, active = False\<rparr>)
                     (1 := \<lparr>principal = 2 ^ 127, start = 0, active = True\<rparr>),
                   balance = 2 ^ 127\<rparr>,
             nft = \<lparr>nft_owner = admin, pool = pool_address,
                    holders = [1 \<mapsto> alice], tokenURIs = Map.empty\<rparr>,
             log = [Issued alice 1, Deposited 1 alice (2 ^ 127)]\<rparr>"
  by (simp add: world_big_def deposit_world0)

lemma numeral_trunc: "(340282366920938463463374607431768211463 :: 128 word) = 7"
  by (simp add: word_unat_eq_iff)

lemma world_trunc_eq:
  "world_trunc = \<lparr>this = pool_address,
             sp = \<lparr>owner = admin, entered = False, aprBps = 500, nextId = 1,
                   positions = (\<lambda>_. \<lparr>principal = 0, start = 0, active = False\<rparr>)
                     (1 := \<lparr>principal = 7, start = 0, active = True\<rparr>),
                   balance = 2 ^ 128 + 7\<rparr>,
             nft = \<lparr>nft_owner = admin, pool = pool_address,
                    holders = [1 \<mapsto> alice], tokenURIs = Map.empty\<rparr>,
             log = [Issued alice 1, Deposited 1 alice (2 ^ 128 + 7)]\<rparr>"
  by (simp add: world_trunc_def deposit_world0 numeral_trunc)

subsection \<open>Accrued interest\<close>

text \<open>
  Claim C3, as the code has it. \<open>accrued\<close> fails with NotActive when the position is
  missing or closed. For an active position whose start time is not after the clock
  (the other case is the clock regression the spec sets apart), it returns the spec's
  \<open>floor(principal * rateBps * elapsed / (31536000 * 10000))\<close> with
  \<open>elapsed = now - start\<close>, rounded down, provided the two checked products
  \<open>principal * aprBps\<close> and \<open>principal * aprBps * elapsed\<close> fit in 256 bits; when one
  of them does not, the call aborts with the arithmetic panic. Both products fit
  whenever the rate respects the cap of 5000 and the clock is below \<open>2 ^ 64\<close>. With 500
  basis points, a principal of 1,000,000 and 31,536,000 elapsed seconds the formula
  gives exactly 50,000.
\<close>

theorem accrued_floor:
  "(\<not> active (positions (sp w) tokenId) \<longrightarrow> accrued e w tokenId = Inl NotActive) \<and>
   (active (positions (sp w) tokenId) \<and>
    unat (start (positions (sp w) tokenId)) \<le> unat (block_timestamp e) \<and>
    unat (principal (positions (sp w) tokenId)) * unat (aprBps (sp w)) < 2 ^ 256 \<and>
    unat (principal (positions (sp w) tokenId)) * unat (aprBps (sp w))
      * (unat (block_timestamp e) - unat (start (positions (sp w) tokenId))) < 2 ^ 256
    \<longrightarrow> (\<exists>a. accrued e w tokenId = Inr a \<and>
             unat a = spec_interest (unat (principal (positions (sp w) tokenId)))
                        (unat (aprBps (sp w)))
                        (unat (block_timestamp e) - unat (start (positions (sp w) tokenId))))) \<and>
   (active (positions (sp w) tokenId) \<and>
    unat (start (positions (sp w) tokenId)) \<le> unat (block_timestamp e) \<and>
    \<not> (unat (principal (positions (sp w) tokenId)) * unat (aprBps (sp w)) < 2 ^ 256 \<and>
       unat (principal (positions (sp w) tokenId)) * unat (aprBps (sp w))
         * (unat (block_timestamp e) - unat (start (positions (sp w) tokenId))) < 2 ^ 256)
    \<longrightarrow> accrued e w tokenId = Inl Panic) \<and>
   (aprBps (sp w) \<le> 5000 \<and> unat (block_timestamp e) < 2 ^ 64 \<longrightarrow>
      unat (principal (positions (sp w) tokenId)) * unat (aprBps (sp w)) < 2 ^ 256 \<and>
      unat (principal (positions (sp w) tokenId)) * unat (aprBps (sp w))
        * (unat (block_timestamp e) - unat (start (positions (sp w) tokenId))) < 2 ^ 256) \<and>
   spec_interest 1000000 500 31536000 = 50000"
proof -
  let ?p = "positions (sp w) tokenId"
  let ?m = "unat (principal ?p) * unat (aprBps (sp w))"
  let ?n = "?m * (unat (block_timestamp e) - unat (start ?p))"
  have one: "accrued e w tokenId = Inl NotActive" if "\<not> active ?p"
    using that by (rule accrued_inactive)
  have two: "\<exists>a. accrued e w tokenId = Inr a \<and>
      unat a = spec_interest (unat (principal ?p)) (unat (aprBps (sp w)))
                 (unat (block_timestamp e) - unat (start ?p))"
    if h: "active ?p \<and> unat (start ?p) \<le> unat (block_timestamp e) \<and>
      ?m < 2 ^ 256 \<and> ?n < 2 ^ 256"
  proof -
    from h have eq: "accrued e w tokenId = Inr (of_nat (?n div 315360000000))"
      by (simp add: accrued_cases Let_def)
    have "?n div 315360000000 \<le> ?n" by (rule div_le_dividend)
    then have "?n div 315360000000 < 2 ^ 256" using h by (simp only: le_less_trans)
    then have "unat (of_nat (?n div 315360000000) :: uint256) = ?n div 315360000000"
      by (simp add: unat_of_nat)
    with eq show ?thesis by (simp add: spec_interest_def)
  qed
  have three: "accrued e w tokenId = Inl Panic"
    if h: "active ?p \<and> unat (start ?p) \<le> unat (block_timestamp e) \<and>
      \<not> (?m < 2 ^ 256 \<and> ?n < 2 ^ 256)"
  proof -
    from h have "2 ^ 256 \<le> ?m \<or> 2 ^ 256 \<le> ?n" by (simp add: not_less)
    with h show ?thesis by (simp add: accrued_cases Let_def not_less)
  qed
  have four: "?m < 2 ^ 256 \<and> ?n < 2 ^ 256"
    if "aprBps (sp w) \<le> 5000 \<and> unat (block_timestamp e) < 2 ^ 64"
    using that
      products_fit(1) [where r = "aprBps (sp w)" and t = "block_timestamp e"
        and p = "principal ?p"]
      products_fit(2) [where r = "aprBps (sp w)" and t = "block_timestamp e"
        and p = "principal ?p" and s = "start ?p"]
    by blast
  have five: "spec_interest 1000000 500 31536000 = 50000"
    by (simp add: spec_interest_def)
  from one two three four five show ?thesis by blast
qed

text \<open>
  The spec's scenario evaluated on the code (50,000), a missing position, an active
  position whose product overflows, and the bound at the scenario's rate and clock.
\<close>

theorem accrued_floor_witness:
  "active (positions (sp world1) 1) \<and>
   accrued (at_time alice 0 31536000) world1 1 = Inr 50000 \<and>
   \<not> active (positions (sp world0) 1) \<and>
   accrued (at_time alice 0 31536000) world0 1 = Inl NotActive \<and>
   active (positions (sp world_big) 1) \<and>
   unat (start (positions (sp world_big) 1)) \<le> unat (block_timestamp (at_time alice 0 (2 ^ 121))) \<and>
   accrued (at_time alice 0 (2 ^ 121)) world_big 1 = Inl Panic \<and>
   aprBps (sp world1) \<le> 5000 \<and>
   unat (block_timestamp (at_time alice 0 31536000)) < 2 ^ 64 \<and>
   unat (principal (positions (sp world1) 1)) * unat (aprBps (sp world1))
     * (unat (block_timestamp (at_time alice 0 31536000)) - unat (start (positions (sp world1) 1)))
     < 2 ^ 256"
proof -
  let ?e = "at_time alice 0 31536000"
  have f1: "active (positions (sp world1) 1)"
    and f2: "unat (principal (positions (sp world1) 1)) = 1000000"
    and f3: "unat (aprBps (sp world1)) = 500"
    and f4: "unat (start (positions (sp world1) 1)) = 0"
    and f5: "aprBps (sp world1) \<le> 5000"
    by (simp_all add: world1_eq)
  have t: "unat (block_timestamp ?e) = 31536000" by (simp add: at_time_def)
  have t64: "unat (block_timestamp ?e) < 2 ^ 64" by (simp add: at_time_def)
  have fit: "unat (principal (positions (sp world1) 1)) * unat (aprBps (sp world1)) < 2 ^ 256 \<and>
     unat (principal (positions (sp world1) 1)) * unat (aprBps (sp world1))
       * (unat (block_timestamp ?e) - unat (start (positions (sp world1) 1))) < 2 ^ 256"
    using accrued_floor [of world1 1 ?e] f5 t64 by blast
  have "\<exists>a. accrued ?e world1 1 = Inr a \<and>
          unat a = spec_interest (unat (principal (positions (sp world1) 1)))
                        (unat (aprBps (sp world1)))
                        (unat (block_timestamp ?e) - unat (start (positions (sp world1) 1)))"
    using accrued_floor [of world1 1 ?e] f1 f4 fit by simp
  then obtain a where a: "accrued ?e world1 1 = Inr a"
    and "unat a = spec_interest 1000000 500 31536000" by (auto simp only: f2 f3 f4 t diff_zero)
  moreover have "spec_interest 1000000 500 31536000 = 50000"
    using accrued_floor [of world1 1 ?e] by blast
  ultimately have "unat a = unat (50000 :: uint256)" by simp
  then have a5: "a = 50000" by (simp only: word_unat_eq_iff)
  have n: "\<not> active (positions (sp world0) 1)" by (simp add: world0_def)
  have na: "accrued ?e world0 1 = Inl NotActive"
    using accrued_floor [of world0 1 ?e] n by blast
  let ?b = "at_time alice 0 (2 ^ 121)"
  have b1: "active (positions (sp world_big) 1)"
    and b2: "unat (start (positions (sp world_big) 1)) \<le> unat (block_timestamp ?b)"
    by (simp_all add: world_big_eq)
  have b3: "\<not> (unat (principal (positions (sp world_big) 1)) * unat (aprBps (sp world_big)) < 2 ^ 256 \<and>
     unat (principal (positions (sp world_big) 1)) * unat (aprBps (sp world_big))
       * (unat (block_timestamp ?b) - unat (start (positions (sp world_big) 1))) < 2 ^ 256)"
    by (simp add: world_big_eq at_time_def)
  have pb: "accrued ?b world_big 1 = Inl Panic"
    using accrued_floor [of world_big 1 ?b] b1 b2 b3 by blast
  from f1 a a5 n na b1 b2 pb f5 t64 fit show ?thesis by (simp only: simp_thms)
qed

text \<open>
  An active position, started before the clock, where \<open>accrued\<close> returns no interest
  at all: a principal of \<open>2 ^ 127\<close> at rate 500 read at time \<open>2 ^ 121\<close>, whose product
  needs more than 256 bits.
\<close>

theorem accrued_floor_counterexample:
  "active (positions (sp world_big) 1) \<and>
   unat (start (positions (sp world_big) 1)) \<le> unat (block_timestamp (at_time alice 0 (2 ^ 121))) \<and>
   accrued (at_time alice 0 (2 ^ 121)) world_big 1 = Inl Panic"
  by (simp add: world_big_eq accrued_def checked_sub_def checked_mul_def at_time_def)

text \<open>
  Claim C10: for an active position, when the clock read by \<open>accrued\<close> is strictly
  earlier than the position's start time, the call fails with the arithmetic panic of
  the checked subtraction; it returns neither zero nor a wrapped value.
\<close>

theorem accrued_clock_regression:
  assumes "active (positions (sp w) tokenId)"
    and "unat (block_timestamp e) < unat (start (positions (sp w) tokenId))"
  shows "accrued e w tokenId = Inl Panic"
  using assms by (simp add: accrued_cases Let_def)

theorem accrued_clock_regression_witness:
  "active (positions (sp world_late) 1) \<and>
   unat (block_timestamp (at_time alice 0 99)) < unat (start (positions (sp world_late) 1)) \<and>
   accrued (at_time alice 0 99) world_late 1 = Inl Panic"
  using accrued_clock_regression [of world_late 1 "at_time alice 0 99"]
  by (simp add: world_late_eq at_time_def)

subsection \<open>Withdrawal\<close>

text \<open>
  Every path through \<open>withdraw\<close>, written out. After the two checks the position is
  closed in storage, and the call of \<open>accrued\<close> that follows reads it as closed: the
  last branch, an active position redeemed by its holder, reverts with NotActive too.
\<close>

lemma withdraw_cases:
  "withdraw recv e w tokenId =
     (if entered (sp w) then Inl ReentrantCall
      else if \<not> active (positions (sp w) tokenId) then Inl NotActive
      else case holders (nft w) tokenId of
        None \<Rightarrow> Inl NotFound
      | Some h \<Rightarrow> if h \<noteq> msg_sender e then Inl NotOwner else Inl NotActive)"
  by (simp add: withdraw_def nonReentrant_def withdraw_body_def ownerOf_def accrued_inactive
      close_position_def set_entered_def split: option.split)

lemma withdraw_never_succeeds: "withdraw recv e w tokenId \<noteq> Inr r"
  by (simp add: withdraw_cases split: option.split)


text \<open>
  Claim C1 says that for an active position whose certificate the caller owns,
  \<open>withdraw\<close> completes: the position is closed, the payout computed, the certificate
  burned, the payout transferred and the event emitted. The code does not: for every
  such position, every caller, clock and receiver, the call reverts with NotActive and
  the world stays as it was.
\<close>

theorem withdraw_active_owner_reverts:
  assumes "active (positions (sp w) tokenId)"
    and "ownerOf w tokenId = Inr (msg_sender e)"
    and "\<not> entered (sp w)"
  shows "transact (\<lambda>w'. withdraw recv e w' tokenId) w = (Inl NotActive, w)"
  using assms
  by (simp add: transact_def withdraw_cases ownerOf_def split: option.splits)

text \<open>
  At the spec's scenario, a year after the deposit: the view \<open>payoutOf\<close> promises
  1,050,000, the pool holds the principal, and the holder's withdrawal reverts.
\<close>

theorem withdraw_active_owner_reverts_witness:
  "active (positions (sp world1) 1) \<and>
   ownerOf world1 1 = Inr (msg_sender (at_time alice 0 31536000)) \<and>
   \<not> entered (sp world1) \<and>
   payoutOf (at_time alice 0 31536000) world1 1 = Inr 1050000 \<and>
   balance (sp world1) = 1000000 \<and>
   transact (\<lambda>w'. withdraw accepting (at_time alice 0 31536000) w' 1) world1
     = (Inl NotActive, world1)"
  using withdraw_active_owner_reverts [of world1 1 "at_time alice 0 31536000" accepting]
  by (simp add: world1_eq ownerOf_def at_time_def payoutOf_def accrued_def checked_sub_def
      checked_mul_def checked_add_def year_bps_def)

subsection \<open>Deposits\<close>

lemma word_succ_less:
  fixes a :: uint256
  assumes "unat a + 1 < 2 ^ 256"
  shows "a < a + 1" and "unat (a + 1) = unat a + 1"
proof -
  show u: "unat (a + 1) = unat a + 1"
    using assms unat_add_lem [of a 1] by simp
  then show "a < a + 1" by (simp add: word_less_nat_alt)
qed

text \<open>The world a successful deposit leaves, written out.\<close>

lemma depositWithURI_internal_cases:
  "depositWithURI_internal e w uri =
     (if \<not> 0 < msg_value e then Inl ZeroAmount
      else if \<not> unat (nextId (sp w)) + 1 < 2 ^ 256 then Inl Panic
      else if this w \<noteq> pool (nft w) then Inl NotPool
      else if holders (nft w) (nextId (sp w) + 1) \<noteq> None then Inl DuplicateId
      else Inr (nextId (sp w) + 1,
        w\<lparr>sp := (sp w)\<lparr>nextId := nextId (sp w) + 1,
               positions := (positions (sp w))
                 (nextId (sp w) + 1 := \<lparr>principal = ucast (msg_value e),
                                         start = ucast (block_timestamp e),
                                         active = True\<rparr>)\<rparr>,
           nft := (nft w)\<lparr>holders := (holders (nft w))(nextId (sp w) + 1 \<mapsto> msg_sender e),
                   tokenURIs := (if uri = [] then tokenURIs (nft w)
                                 else (tokenURIs (nft w))(nextId (sp w) + 1 \<mapsto> uri))\<rparr>,
           log := log w @ [Issued (msg_sender e) (nextId (sp w) + 1),
                           Deposited (nextId (sp w) + 1) (msg_sender e) (msg_value e)]\<rparr>))"
  by (simp add: depositWithURI_internal_def checked_add_def mint_def onlyPool_def
      safeMint_def setTokenURI_def emit_def Let_def)

lemma depositWithURI_cases:
  "depositWithURI e w uri =
     (if entered (sp w) then Inl ReentrantCall
      else if \<not> 0 < msg_value e then Inl ZeroAmount
      else if \<not> unat (nextId (sp w)) + 1 < 2 ^ 256 then Inl Panic
      else if this w \<noteq> pool (nft w) then Inl NotPool
      else if holders (nft w) (nextId (sp w) + 1) \<noteq> None then Inl DuplicateId
      else Inr (nextId (sp w) + 1,
        w\<lparr>sp := (sp w)\<lparr>nextId := nextId (sp w) + 1,
               positions := (positions (sp w))
                 (nextId (sp w) + 1 := \<lparr>principal = ucast (msg_value e),
                                         start = ucast (block_timestamp e),
                                         active = True\<rparr>),
               balance := balance (sp w) + unat (msg_value e)\<rparr>,
           nft := (nft w)\<lparr>holders := (holders (nft w))(nextId (sp w) + 1 \<mapsto> msg_sender e),
                   tokenURIs := (if uri = [] then tokenURIs (nft w)
                                 else (tokenURIs (nft w))(nextId (sp w) + 1 \<mapsto> uri))\<rparr>,
           log := log w @ [Issued (msg_sender e) (nextId (sp w) + 1),
                           Deposited (nextId (sp w) + 1) (msg_sender e) (msg_value e)]\<rparr>))"
  by (simp add: depositWithURI_def nonReentrant_def depositWithURI_internal_cases
      receive_value_def set_entered_def)

lemma deposit_eq: "deposit e w = depositWithURI e w []"
  by (simp add: deposit_def depositWithURI_def)


subsection \<open>A withdrawal whose receiver calls back\<close>





subsection \<open>The operations and the positions\<close>

lemma setApr_cases:
  "setApr e w bps =
     (if msg_sender e \<noteq> owner (sp w) then Inl Unauthorized
      else if \<not> bps \<le> 5000 then Inl RateTooHigh
      else Inr ((), w\<lparr>sp := (sp w)\<lparr>aprBps := bps\<rparr>,
                     log := log w @ [AprUpdated (aprBps (sp w)) bps]\<rparr>))"
  by (simp add: setApr_def onlyOwner_def emit_def Let_def)

lemma mint_cases:
  "mint e w to tokenId uri =
     (if msg_sender e \<noteq> pool (nft w) then Inl NotPool
      else if holders (nft w) tokenId \<noteq> None then Inl DuplicateId
      else Inr (w\<lparr>nft := (nft w)\<lparr>holders := (holders (nft w))(tokenId \<mapsto> to),
                     tokenURIs := (if uri = [] then tokenURIs (nft w)
                                   else (tokenURIs (nft w))(tokenId \<mapsto> uri))\<rparr>,
                  log := log w @ [Issued to tokenId]\<rparr>))"
  by (simp add: mint_def onlyPool_def safeMint_def setTokenURI_def)

lemma call_sp:
  assumes "call e c w = Inr w'"
  shows "(\<exists>bps. c = SetApr bps \<and> sp w' = (sp w)\<lparr>aprBps := bps\<rparr> \<and> bps \<le> 5000)
       \<or> ((c = Deposit \<or> (\<exists>uri. c = DepositWithURI uri)) \<and>
           unat (nextId (sp w)) + 1 < 2 ^ 256 \<and>
           sp w' = (sp w)\<lparr>nextId := nextId (sp w) + 1,
               positions := (positions (sp w))
                 (nextId (sp w) + 1 := \<lparr>principal = ucast (msg_value e),
                                         start = ucast (block_timestamp e),
                                         active = True\<rparr>),
               balance := balance (sp w) + unat (msg_value e)\<rparr>)
       \<or> sp w' = sp w"
proof (cases c)
  case (SetApr bps)
  with assms show ?thesis
    by (auto simp: drop_result_def setApr_cases split: if_splits)
next
  case Deposit
  with assms show ?thesis
    by (auto simp: drop_result_def deposit_eq depositWithURI_cases split: if_splits)
next
  case (DepositWithURI uri)
  with assms show ?thesis
    by (auto simp: drop_result_def depositWithURI_cases split: if_splits)
next
  case (Withdraw recv tokenId)
  with assms show ?thesis
    by (cases "withdraw recv e w tokenId") (auto simp: drop_result_def withdraw_never_succeeds)
next
  case (SetPool p)
  with assms show ?thesis
    by (auto simp: setPool_def onlyOwnerNFT_def split: if_splits)
next
  case (Mint to tokenId uri)
  with assms show ?thesis
    by (auto simp: mint_cases split: if_splits)
next
  case (Burn tokenId)
  with assms show ?thesis
    by (auto simp: burn_def onlyPool_def burn_entry_def split: if_splits)
qed


lemma call_positions:
  assumes "call e c w = Inr w'"
  shows "nextId (sp w) \<le> nextId (sp w')"
    and "created w tokenId \<Longrightarrow> positions (sp w') tokenId = positions (sp w) tokenId"
    and "\<not> created w tokenId \<Longrightarrow> created w' tokenId \<Longrightarrow> active (positions (sp w') tokenId)"
proof -
  consider (apr) bps where "sp w' = (sp w)\<lparr>aprBps := bps\<rparr>"
    | (dep) "unat (nextId (sp w)) + 1 < 2 ^ 256"
        "sp w' = (sp w)\<lparr>nextId := nextId (sp w) + 1,
               positions := (positions (sp w))
                 (nextId (sp w) + 1 := \<lparr>principal = ucast (msg_value e),
                                         start = ucast (block_timestamp e),
                                         active = True\<rparr>),
               balance := balance (sp w) + unat (msg_value e)\<rparr>"
    | (same) "sp w' = sp w"
    using call_sp [OF assms] by blast
  then have "nextId (sp w) \<le> nextId (sp w')
     \<and> (created w tokenId \<longrightarrow> positions (sp w') tokenId = positions (sp w) tokenId)
     \<and> (\<not> created w tokenId \<longrightarrow> created w' tokenId \<longrightarrow> active (positions (sp w') tokenId))"
  proof cases
    case apr
    then show ?thesis by (auto simp: created_def)
  next
    case dep
    have lt: "nextId (sp w) < nextId (sp w) + 1"
      and u: "unat (nextId (sp w) + 1) = unat (nextId (sp w)) + 1"
      using word_succ_less [OF dep(1)] by simp_all
    have a: "nextId (sp w) \<le> nextId (sp w')" using lt dep(2) by simp
    have b: "created w tokenId \<longrightarrow> positions (sp w') tokenId = positions (sp w) tokenId"
      using lt dep(2) by (auto simp: created_def)
    have c: "\<not> created w tokenId \<longrightarrow> created w' tokenId \<longrightarrow> active (positions (sp w') tokenId)"
    proof (intro impI)
      assume n: "\<not> created w tokenId" and y: "created w' tokenId"
      from y dep(2) have "0 < tokenId" "unat tokenId \<le> unat (nextId (sp w)) + 1"
        by (simp_all add: created_def word_le_nat_alt u)
      moreover from n \<open>0 < tokenId\<close> have "unat (nextId (sp w)) < unat tokenId"
        by (simp add: created_def word_le_nat_alt)
      ultimately have "unat tokenId = unat (nextId (sp w) + 1)" using u by simp
      then have "tokenId = nextId (sp w) + 1" by (simp only: word_unat_eq_iff)
      then show "active (positions (sp w') tokenId)" using dep(2) by simp
    qed
    from a b c show ?thesis by blast
  next
    case same
    then show ?thesis by (auto simp: created_def)
  qed
  then show "nextId (sp w) \<le> nextId (sp w')"
    and "created w tokenId \<Longrightarrow> positions (sp w') tokenId = positions (sp w) tokenId"
    and "\<not> created w tokenId \<Longrightarrow> created w' tokenId \<Longrightarrow> active (positions (sp w') tokenId)"
    by blast+
qed

lemma exec_positions:
  shows "nextId (sp w) \<le> nextId (sp (exec t w))"
    and "created w tokenId \<Longrightarrow> positions (sp (exec t w)) tokenId = positions (sp w) tokenId"
    and "\<not> created w tokenId \<Longrightarrow> created (exec t w) tokenId
           \<Longrightarrow> active (positions (sp (exec t w)) tokenId)"
proof -
  show "nextId (sp w) \<le> nextId (sp (exec t w))"
    by (cases "call (fst t) (snd t) w") (auto simp: exec_def dest: call_positions(1))
  show "created w tokenId \<Longrightarrow> positions (sp (exec t w)) tokenId = positions (sp w) tokenId"
    by (cases "call (fst t) (snd t) w") (auto simp: exec_def dest: call_positions(2))
  show "\<not> created w tokenId \<Longrightarrow> created (exec t w) tokenId
           \<Longrightarrow> active (positions (sp (exec t w)) tokenId)"
    by (cases "call (fst t) (snd t) w") (auto simp: exec_def dest: call_positions(3))
qed

lemma created_exec: "created w tokenId \<Longrightarrow> created (exec t w) tokenId"
  using exec_positions(1) [of w t] by (auto simp: created_def)

lemma run_positions:
  "created w tokenId \<Longrightarrow>
     created (run w ts) tokenId \<and> positions (sp (run w ts)) tokenId = positions (sp w) tokenId"
proof (induction ts arbitrary: w)
  case Nil
  then show ?case by (simp add: run_def)
next
  case (Cons t ts)
  have c: "created (exec t w) tokenId" using Cons.prems by (rule created_exec)
  have "run w (t # ts) = run (exec t w) ts" by (simp add: run_def)
  with Cons.IH [OF c] exec_positions(2) [OF Cons.prems] show ?case by simp
qed

text \<open>
  Claim C4: a position that has been created keeps its principal and its start time
  through every sequence of transactions, and stays created; its active flag can only
  go from true to false, never back (a position that is closed stays closed); and an id
  that a transaction creates is active right after it, so no position skips the active
  state.
\<close>

theorem position_lifecycle:
  "(created w tokenId \<longrightarrow>
      created (run w ts) tokenId \<and>
      principal (positions (sp (run w ts)) tokenId) = principal (positions (sp w) tokenId) \<and>
      start (positions (sp (run w ts)) tokenId) = start (positions (sp w) tokenId) \<and>
      (active (positions (sp (run w ts)) tokenId) \<longrightarrow> active (positions (sp w) tokenId))) \<and>
   (\<not> created w tokenId \<and> created (exec t w) tokenId \<longrightarrow>
      active (positions (sp (exec t w)) tokenId))"
  using run_positions [of w tokenId ts] exec_positions(3) [of w tokenId t] by auto


theorem position_lifecycle_witness:
  "created world1 1 \<and>
   created (run world1 [(at_time admin 0 5, SetApr 400), (at_time alice 5 10, Deposit),
                        (at_time alice 0 20, Withdraw accepting 1)]) 1 \<and>
   principal (positions (sp (run world1 [(at_time admin 0 5, SetApr 400),
       (at_time alice 5 10, Deposit), (at_time alice 0 20, Withdraw accepting 1)])) 1) = 1000000 \<and>
   start (positions (sp (run world1 [(at_time admin 0 5, SetApr 400),
       (at_time alice 5 10, Deposit), (at_time alice 0 20, Withdraw accepting 1)])) 1) = 0 \<and>
   \<not> created world0 1 \<and>
   created (exec (at_time alice 1000000 0, Deposit) world0) 1 \<and>
   active (positions (sp (exec (at_time alice 1000000 0, Deposit) world0)) 1)"
proof -
  have c1: "created world1 1" by (simp add: created_def world1_eq)
  have p1: "principal (positions (sp world1) 1) = 1000000"
    and s1: "start (positions (sp world1) 1) = 0"
    by (simp_all add: world1_eq)
  have c0: "\<not> created world0 1" by (simp add: created_def world0_def)
  have c2: "created (exec (at_time alice 1000000 0, Deposit) world0) 1"
    using c1 by (simp add: world1_def)
  show ?thesis
    using position_lifecycle [of world1 1 "[(at_time admin 0 5, SetApr 400),
        (at_time alice 5 10, Deposit), (at_time alice 0 20, Withdraw accepting 1)]"
        "(at_time alice 1000000 0, Deposit)"]
      position_lifecycle [of world0 1 "[]" "(at_time alice 1000000 0, Deposit)"]
      c1 p1 s1 c0 c2
    by simp
qed

subsection \<open>The payout\<close>

lemma accrued_bound:
  assumes "accrued e w tokenId = Inr a"
  shows "unat a \<le> (2 ^ 256 - 1) div 315360000000"
proof -
  let ?p = "positions (sp w) tokenId"
  let ?n = "unat (principal ?p) * unat (aprBps (sp w))
              * (unat (block_timestamp e) - unat (start ?p))"
  from assms have lt: "?n < 2 ^ 256" and a: "a = of_nat (?n div 315360000000)"
    by (auto simp: accrued_cases Let_def split: if_splits)
  have "?n div 315360000000 \<le> ?n" by (rule div_le_dividend)
  then have "?n div 315360000000 < 2 ^ 256" using lt by (rule le_less_trans)
  then have "unat a = ?n div 315360000000" using a by (simp add: unat_of_nat)
  moreover have "?n div 315360000000 \<le> (2 ^ 256 - 1) div 315360000000"
    using lt by (intro div_le_mono) simp
  ultimately show ?thesis by simp
qed

lemma payout_no_overflow:
  assumes "accrued e w tokenId = Inr a"
  shows "unat (ucast (p :: 128 word) :: uint256) + unat a < 2 ^ 256"
proof -
  have "unat p < 2 ^ 128" using unsigned_less [of p] by simp
  moreover have "unat a \<le> (2 ^ 256 - 1) div 315360000000"
    using assms by (rule accrued_bound)
  ultimately show ?thesis by (simp add: unat_ucast_128)
qed

lemma payoutOf_cases:
  "payoutOf e w tokenId =
     (if \<not> active (positions (sp w) tokenId) then Inl NotActive
      else case accrued e w tokenId of
        Inl x \<Rightarrow> Inl x
      | Inr a \<Rightarrow> Inr (ucast (principal (positions (sp w) tokenId)) + a))"
proof (cases "accrued e w tokenId")
  case (Inl x)
  then show ?thesis by (simp add: payoutOf_def Let_def)
next
  case (Inr a)
  have "unat (ucast (principal (positions (sp w) tokenId)) :: uint256) + unat a < 2 ^ 256"
    using Inr by (rule payout_no_overflow)
  then have "checked_add (ucast (principal (positions (sp w) tokenId))) a
               = Inr (ucast (principal (positions (sp w) tokenId)) + a)"
    unfolding checked_add_def by (rule if_P)
  with Inr show ?thesis by (simp add: payoutOf_def Let_def)
qed


lemma accrued_NotActive_iff:
  "accrued e w tokenId = Inl NotActive \<longleftrightarrow> \<not> active (positions (sp w) tokenId)"
  by (auto simp: accrued_cases Let_def split: if_splits)

lemma payoutOf_NotActive_iff:
  "payoutOf e w tokenId = Inl NotActive \<longleftrightarrow> \<not> active (positions (sp w) tokenId)"
  by (auto simp: payoutOf_cases accrued_NotActive_iff split: sum.splits)

lemma accrued_zero_elapsed:
  assumes "active (positions (sp w) tokenId)"
    and "unat (block_timestamp e) = unat (start (positions (sp w) tokenId))"
    and "aprBps (sp w) \<le> 5000"
  shows "accrued e w tokenId = Inr 0"
proof -
  have "unat (principal (positions (sp w) tokenId)) < 2 ^ 128"
    using unsigned_less [of "principal (positions (sp w) tokenId)"] by simp
  moreover have "unat (aprBps (sp w)) \<le> 5000"
    using assms(3) by (simp add: word_le_nat_alt)
  ultimately have "unat (principal (positions (sp w) tokenId)) * unat (aprBps (sp w))
                     < 2 ^ 128 * 5001"
    by (intro mult_strict_mono) simp_all
  then have "unat (principal (positions (sp w) tokenId)) * unat (aprBps (sp w)) < 2 ^ 256"
    by simp
  then show ?thesis using assms(1,2) by (simp add: accrued_cases Let_def)
qed

lemma deposit_world0_result:
  "0 < v \<Longrightarrow> deposit (at_time a v t) world0 = Inr (1, exec (at_time a v t, Deposit) world0)"
  by (simp add: exec_def drop_result_def deposit_eq depositWithURI_cases world0_def
      authority0_def at_time_def pool_address_def)


text \<open>
  Claim C5, as the code has it. For an active position \<open>payoutOf\<close> is the principal plus
  what \<open>accrued\<close> returns (the checked addition cannot overflow) and fails as \<open>accrued\<close>
  fails; it fails with NotActive exactly when \<open>accrued\<close> does, which is exactly when
  the position is missing or closed. Right after a successful deposit, read at the
  deposit's own timestamp (below \<open>2 ^ 64\<close>, so that no time has elapsed) in a pool whose
  rate respects the cap of 5000, \<open>payoutOf\<close> is the recorded principal: the amount
  sent modulo \<open>2 ^ 128\<close>, and so the amount itself when that is below \<open>2 ^ 128\<close>.
\<close>

theorem payoutOf_spec:
  "(active (positions (sp w) tokenId) \<longrightarrow>
      (\<forall>a. accrued e w tokenId = Inr a \<longrightarrow>
         (\<exists>x. payoutOf e w tokenId = Inr x \<and>
              unat x = unat (principal (positions (sp w) tokenId)) + unat a)) \<and>
      (\<forall>err. accrued e w tokenId = Inl err \<longrightarrow> payoutOf e w tokenId = Inl err)) \<and>
   (payoutOf e w tokenId = Inl NotActive \<longleftrightarrow> accrued e w tokenId = Inl NotActive) \<and>
   (accrued e w tokenId = Inl NotActive \<longleftrightarrow> \<not> active (positions (sp w) tokenId)) \<and>
   (depositWithURI e w uri = Inr (tokenId, w') \<and> aprBps (sp w) \<le> 5000 \<and>
    unat (block_timestamp e) < 2 ^ 64 \<longrightarrow>
      (\<exists>x. payoutOf e w' tokenId = Inr x \<and>
           unat x = unat (principal (positions (sp w') tokenId)) \<and>
           unat x = unat (msg_value e) mod 2 ^ 128 \<and>
           (unat (msg_value e) < 2 ^ 128 \<longrightarrow> x = msg_value e)))"
proof (intro conjI impI allI)
  fix a
  assume act: "active (positions (sp w) tokenId)" and a: "accrued e w tokenId = Inr a"
  have "unat (ucast (principal (positions (sp w) tokenId)) + a :: uint256)
          = unat (principal (positions (sp w) tokenId)) + unat a"
    using payout_no_overflow [OF a, of "principal (positions (sp w) tokenId)"]
      unat_add_lem [of "ucast (principal (positions (sp w) tokenId)) :: uint256" a]
    by (simp add: unat_ucast_128)
  then show "\<exists>x. payoutOf e w tokenId = Inr x \<and>
      unat x = unat (principal (positions (sp w) tokenId)) + unat a"
    using act a by (simp add: payoutOf_cases)
next
  fix err
  assume "active (positions (sp w) tokenId)" and "accrued e w tokenId = Inl err"
  then show "payoutOf e w tokenId = Inl err" by (simp add: payoutOf_cases)
next
  show "payoutOf e w tokenId = Inl NotActive \<longleftrightarrow> accrued e w tokenId = Inl NotActive"
    by (simp add: payoutOf_NotActive_iff accrued_NotActive_iff)
next
  show "accrued e w tokenId = Inl NotActive \<longleftrightarrow> \<not> active (positions (sp w) tokenId)"
    by (rule accrued_NotActive_iff)
next
  assume h: "depositWithURI e w uri = Inr (tokenId, w') \<and> aprBps (sp w) \<le> 5000 \<and>
    unat (block_timestamp e) < 2 ^ 64"
  then have tid: "tokenId = nextId (sp w) + 1"
    and pos: "positions (sp w') tokenId = \<lparr>principal = ucast (msg_value e),
                start = ucast (block_timestamp e), active = True\<rparr>"
    and apr: "aprBps (sp w') = aprBps (sp w)"
    by (auto simp: depositWithURI_cases split: if_splits)
  have st: "unat (block_timestamp e) = unat (start (positions (sp w') tokenId))"
    using h by (simp add: pos unat_ucast_down_64)
  have acc: "accrued e w' tokenId = Inr 0"
    using h by (intro accrued_zero_elapsed st) (simp_all add: pos apr)
  have p: "payoutOf e w' tokenId = Inr (ucast (principal (positions (sp w') tokenId)))"
    using acc by (simp add: payoutOf_cases pos)
  have m: "unat (principal (positions (sp w') tokenId)) = unat (msg_value e) mod 2 ^ 128"
    by (simp add: pos unat_ucast_down_128)
  have "unat (msg_value e) < 2 ^ 128 \<longrightarrow>
      (ucast (principal (positions (sp w') tokenId)) :: uint256) = msg_value e"
    by (simp add: word_unat_eq_iff unat_ucast_128 m)
  with p m show "\<exists>x. payoutOf e w' tokenId = Inr x \<and>
           unat x = unat (principal (positions (sp w') tokenId)) \<and>
           unat x = unat (msg_value e) mod 2 ^ 128 \<and>
           (unat (msg_value e) < 2 ^ 128 \<longrightarrow> x = msg_value e)"
    by (simp add: unat_ucast_128)
qed


theorem payoutOf_spec_witness:
  "active (positions (sp world1) 1) \<and>
   accrued (at_time alice 0 31536000) world1 1 = Inr 50000 \<and>
   (\<exists>x. payoutOf (at_time alice 0 31536000) world1 1 = Inr x \<and> unat x = 1000000 + 50000) \<and>
   \<not> active (positions (sp world0) 1) \<and>
   payoutOf (at_time alice 0 31536000) world0 1 = Inl NotActive \<and>
   depositWithURI (at_time alice 1000000 0) world0 [] = Inr (1, world1) \<and>
   aprBps (sp world0) \<le> 5000 \<and>
   payoutOf (at_time alice 1000000 0) world1 1 = Inr 1000000"
proof -
  have act: "active (positions (sp world1) 1)"
    and p: "unat (principal (positions (sp world1) 1)) = 1000000"
    by (simp_all add: world1_eq)
  have acc: "accrued (at_time alice 0 31536000) world1 1 = Inr 50000"
    by (simp add: world1_eq accrued_def checked_sub_def checked_mul_def year_bps_def at_time_def)
  have one: "\<exists>x. payoutOf (at_time alice 0 31536000) world1 1 = Inr x \<and> unat x = 1000000 + 50000"
    using payoutOf_spec [of world1 1 "at_time alice 0 31536000"] act acc p by simp
  have n0: "\<not> active (positions (sp world0) 1)" by (simp add: world0_def)
  have two: "payoutOf (at_time alice 0 31536000) world0 1 = Inl NotActive"
    using payoutOf_spec [of world0 1 "at_time alice 0 31536000"] n0 by simp
  have dep: "depositWithURI (at_time alice 1000000 0) world0 [] = Inr (1, world1)"
    using deposit_world0_result [of 1000000 alice 0] by (simp add: deposit_eq world1_def)
  have apr: "aprBps (sp world0) \<le> 5000" by (simp add: world0_def)
  have t: "unat (block_timestamp (at_time alice 1000000 0)) < 2 ^ 64"
    and v: "unat (msg_value (at_time alice 1000000 0)) < 2 ^ 128"
    and v': "msg_value (at_time alice 1000000 0) = 1000000"
    by (simp_all add: at_time_def)
  have three: "payoutOf (at_time alice 1000000 0) world1 1 = Inr 1000000"
    using payoutOf_spec [of world0 1 "at_time alice 1000000 0" "[]" world1] dep apr t v v'
    by auto
  from act acc one n0 two dep apr three show ?thesis by (intro conjI)
qed


text \<open>
  A deposit of \<open>2 ^ 128 + 7\<close> units succeeds, and \<open>payoutOf\<close> read in the same block is
  7, not the amount deposited.
\<close>

theorem payoutOf_spec_counterexample:
  "deposit (at_time alice (2 ^ 128 + 7) 0) world0 = Inr (1, world_trunc) \<and>
   payoutOf (at_time alice (2 ^ 128 + 7) 0) world_trunc 1 = Inr 7 \<and>
   msg_value (at_time alice (2 ^ 128 + 7) 0) \<noteq> 7"
proof (intro conjI)
  show "deposit (at_time alice (2 ^ 128 + 7) 0) world0 = Inr (1, world_trunc)"
    by (simp add: deposit_world0_result world_trunc_def)
  show "payoutOf (at_time alice (2 ^ 128 + 7) 0) world_trunc 1 = Inr 7"
    by (simp add: world_trunc_eq payoutOf_def accrued_def checked_sub_def checked_mul_def
        checked_add_def year_bps_def at_time_def)
  show "msg_value (at_time alice (2 ^ 128 + 7) 0) \<noteq> 7"
    by (simp add: at_time_def)
qed

subsection \<open>Rejected deposits\<close>

lemma deposit_returns_next_id:
  "deposit e w = Inr (tokenId, w') \<Longrightarrow> tokenId = nextId (sp w) + 1"
  by (simp add: deposit_eq depositWithURI_cases split: if_splits)

text \<open>
  Claim C6: a top-level deposit of amount 0 (through \<open>deposit\<close> or \<open>depositWithURI\<close>)
  fails with ZeroAmount and leaves the world as it was: \<open>nextId\<close> and the positions are
  unchanged, so a later deposit behaves exactly as if the failed call had never
  happened, and a successful one is given the id \<open>nextId + 1\<close>.
\<close>

theorem deposit_zero_amount:
  assumes "msg_value e = 0" and "\<not> entered (sp w)"
  shows "transact (deposit e) w = (Inl ZeroAmount, w) \<and>
         transact (\<lambda>w'. depositWithURI e w' uri) w = (Inl ZeroAmount, w) \<and>
         nextId (sp (snd (transact (deposit e) w))) = nextId (sp w) \<and>
         positions (sp (snd (transact (deposit e) w))) = positions (sp w) \<and>
         deposit e' (snd (transact (deposit e) w)) = deposit e' w \<and>
         (\<forall>tokenId w'. deposit e' w = Inr (tokenId, w') \<longrightarrow> tokenId = nextId (sp w) + 1)"
proof -
  have u: "depositWithURI e w u = Inl ZeroAmount" for u
    using assms by (simp add: depositWithURI_cases)
  have t: "transact (deposit e) w = (Inl ZeroAmount, w)"
    by (simp add: transact_def deposit_eq u)
  have t': "transact (\<lambda>w'. depositWithURI e w' uri) w = (Inl ZeroAmount, w)"
    by (simp add: transact_def u)
  have n: "\<forall>tokenId w'. deposit e' w = Inr (tokenId, w') \<longrightarrow> tokenId = nextId (sp w) + 1"
    using deposit_returns_next_id by blast
  from t t' n show ?thesis by simp
qed

theorem deposit_zero_amount_witness:
  "msg_value (at_time alice 0 7) = 0 \<and> \<not> entered (sp world1) \<and>
   transact (deposit (at_time alice 0 7)) world1 = (Inl ZeroAmount, world1) \<and>
   nextId (sp world1) = 1 \<and>
   (\<exists>w'. deposit (at_time alice 5 9) (snd (transact (deposit (at_time alice 0 7)) world1))
            = Inr (2, w'))"
proof -
  have d: "\<exists>w'. deposit (at_time alice 5 9) world1 = Inr (2, w')"
    by (simp add: world1_eq deposit_eq depositWithURI_cases at_time_def)
  have v: "msg_value (at_time alice 0 7) = 0" by (simp add: at_time_def)
  have n: "\<not> entered (sp world1)" and i: "nextId (sp world1) = 1"
    by (simp_all add: world1_eq)
  from deposit_zero_amount [OF v n, of "[]" "at_time alice 5 9"]
  have t: "transact (deposit (at_time alice 0 7)) world1 = (Inl ZeroAmount, world1)"
    and s: "deposit (at_time alice 5 9) (snd (transact (deposit (at_time alice 0 7)) world1))
             = deposit (at_time alice 5 9) world1"
    by blast+
  from d s have "\<exists>w'. deposit (at_time alice 5 9)
      (snd (transact (deposit (at_time alice 0 7)) world1)) = Inr (2, w')"
    by (simp only:)
  with v n i t show ?thesis by (intro conjI)
qed

subsection \<open>The rate\<close>

text \<open>
  Claim C7, as the code has it. \<open>setApr\<close> checks the caller first: every caller but the
  administrator fails with Unauthorized, whatever the rate asked for. Called by the
  administrator, it fails with RateTooHigh when the rate exceeds 5000; a failed call
  leaves the rate and the event log unchanged. Called by the administrator with a rate
  of at most 5000, it stores the rate and appends one event with the old and the new
  value; nothing else changes.
\<close>

theorem setApr_spec:
  "(msg_sender e \<noteq> owner (sp w) \<longrightarrow>
      transact (\<lambda>w'. setApr e w' bps) w = (Inl Unauthorized, w)) \<and>
   (msg_sender e = owner (sp w) \<and> 5000 < bps \<longrightarrow>
      transact (\<lambda>w'. setApr e w' bps) w = (Inl RateTooHigh, w)) \<and>
   (msg_sender e = owner (sp w) \<and> bps \<le> 5000 \<longrightarrow>
      transact (\<lambda>w'. setApr e w' bps) w =
        (Inr (), w\<lparr>sp := (sp w)\<lparr>aprBps := bps\<rparr>,
                   log := log w @ [AprUpdated (aprBps (sp w)) bps]\<rparr>))"
  by (simp add: transact_def setApr_cases not_le)

theorem setApr_spec_witness:
  "transact (\<lambda>w'. setApr (at_time alice 0 0) w' 400) world0 = (Inl Unauthorized, world0) \<and>
   transact (\<lambda>w'. setApr (at_time admin 0 0) w' 6000) world0 = (Inl RateTooHigh, world0) \<and>
   aprBps (sp (snd (transact (\<lambda>w'. setApr (at_time admin 0 0) w' 400) world0))) = 400 \<and>
   log (snd (transact (\<lambda>w'. setApr (at_time admin 0 0) w' 400) world0)) = [AprUpdated 500 400]"
  using setApr_spec [of "at_time alice 0 0" world0 400]
    setApr_spec [of "at_time admin 0 0" world0 6000]
    setApr_spec [of "at_time admin 0 0" world0 400]
  by (simp add: world0_def at_time_def admin_def alice_def)

text \<open>
  An account that is not the administrator asks for 6000 basis points: the call fails
  with Unauthorized, not with RateTooHigh.
\<close>

theorem setApr_spec_counterexample:
  "(5000 :: uint256) < 6000 \<and>
   setApr (at_time alice 0 0) world0 6000 = Inl Unauthorized \<and>
   setApr (at_time alice 0 0) world0 6000 \<noteq> Inl RateTooHigh"
  by (simp add: setApr_cases world0_def at_time_def admin_def alice_def)

subsection \<open>Minting a certificate\<close>

text \<open>
  Claim C8: \<open>mint\<close> fails with the authority's Unauthorized (\<open>NotPool\<close>) for every
  caller other than the bound pool, and the world stays as it was; called by the pool
  it fails with DuplicateId when the id already has a holder; otherwise it succeeds,
  records the holder, records the metadata exactly when the URI is not empty, emits
  the issuance event and changes nothing else.
\<close>

theorem mint_spec:
  "(msg_sender e \<noteq> pool (nft w) \<longrightarrow>
      mint e w to tokenId uri = Inl NotPool \<and> exec (e, Mint to tokenId uri) w = w) \<and>
   (msg_sender e = pool (nft w) \<and> holders (nft w) tokenId \<noteq> None \<longrightarrow>
      mint e w to tokenId uri = Inl DuplicateId) \<and>
   (msg_sender e = pool (nft w) \<and> holders (nft w) tokenId = None \<longrightarrow>
      (\<exists>w'. mint e w to tokenId uri = Inr w' \<and>
            holders (nft w') = (holders (nft w))(tokenId \<mapsto> to) \<and>
            tokenURIs (nft w') = (if uri = [] then tokenURIs (nft w)
                                  else (tokenURIs (nft w))(tokenId \<mapsto> uri)) \<and>
            pool (nft w') = pool (nft w) \<and> nft_owner (nft w') = nft_owner (nft w) \<and>
            sp w' = sp w \<and> log w' = log w @ [Issued to tokenId]))"
  by (simp add: mint_cases exec_def)

theorem mint_spec_witness:
  "mint (at_time alice 0 0) world0 alice 1 ''ipfs://a'' = Inl NotPool \<and>
   exec (at_time alice 0 0, Mint alice 1 ''ipfs://a'') world0 = world0 \<and>
   mint (at_time pool_address 0 0) world1 alice 1 ''ipfs://a'' = Inl DuplicateId \<and>
   (\<exists>w'. mint (at_time pool_address 0 0) world0 alice 1 ''ipfs://a'' = Inr w' \<and>
         holders (nft w') 1 = Some alice \<and> tokenURIs (nft w') 1 = Some ''ipfs://a'') \<and>
   (\<exists>w'. mint (at_time pool_address 0 0) world0 alice 1 [] = Inr w' \<and>
         holders (nft w') 1 = Some alice \<and> tokenURIs (nft w') 1 = None)"
proof -
  have a: "msg_sender (at_time alice 0 0) \<noteq> pool (nft world0)"
    by (simp add: world0_def authority0_def at_time_def alice_def pool_address_def)
  have p0: "msg_sender (at_time pool_address 0 0) = pool (nft world0)"
    and h0: "holders (nft world0) 1 = None" and u0: "tokenURIs (nft world0) 1 = None"
    by (simp_all add: world0_def authority0_def at_time_def)
  have p1: "msg_sender (at_time pool_address 0 0) = pool (nft world1)"
    and h1: "holders (nft world1) 1 \<noteq> None"
    by (simp_all add: world1_eq at_time_def)
  show ?thesis
    using mint_spec [of "at_time alice 0 0" world0 alice 1 "''ipfs://a''"]
      mint_spec [of "at_time pool_address 0 0" world1 alice 1 "''ipfs://a''"]
      mint_spec [of "at_time pool_address 0 0" world0 alice 1 "''ipfs://a''"]
      mint_spec [of "at_time pool_address 0 0" world0 alice 1 "[]"]
      a p0 h0 u0 p1 h1
    by auto
qed


subsection \<open>The principal is stored in 128 bits\<close>

lemma deposit_position:
  assumes "depositWithURI e w uri = Inr (tokenId, w')"
  shows "positions (sp w') tokenId = \<lparr>principal = ucast (msg_value e),
                start = ucast (block_timestamp e), active = True\<rparr>"
  using assms by (auto simp: depositWithURI_cases split: if_splits)


lemma deposit_succeeds:
  assumes "2 ^ 128 \<le> unat (msg_value e)" and "\<not> entered (sp w)"
    and "unat (nextId (sp w)) + 1 < 2 ^ 256" and "pool (nft w) = this w"
    and "holders (nft w) (nextId (sp w) + 1) = None"
  shows "\<exists>w''. depositWithURI e w uri = Inr (nextId (sp w) + 1, w'')"
proof -
  have "(0 :: nat) < 2 ^ 128" by simp
  then have "0 < unat (msg_value e)" using assms(1) by (rule less_le_trans)
  then have "0 < msg_value e" by (simp add: word_less_nat_alt)
  with assms(2-5) show ?thesis by (simp add: depositWithURI_cases)
qed


text \<open>
  Claim C9: every successful deposit records an active position whose principal is the
  amount sent modulo \<open>2 ^ 128\<close>, so for an amount of at least \<open>2 ^ 128\<close> the recorded
  principal, from which the payout is computed, is strictly less than the amount
  deposited. Such a deposit raises no error on account of its size: in a pool that is
  not inside a guarded call, whose id counter is not exhausted, whose authority is
  bound to it and has not issued the next id, it succeeds. \<open>deposit\<close> is
  \<open>depositWithURI\<close> with the empty URI.
\<close>

theorem deposit_truncates_principal:
  "(depositWithURI e w uri = Inr (tokenId, w') \<longrightarrow>
      active (positions (sp w') tokenId) \<and>
      unat (principal (positions (sp w') tokenId)) = unat (msg_value e) mod 2 ^ 128 \<and>
      (2 ^ 128 \<le> unat (msg_value e) \<longrightarrow>
         unat (principal (positions (sp w') tokenId)) < unat (msg_value e))) \<and>
   (2 ^ 128 \<le> unat (msg_value e) \<and> \<not> entered (sp w) \<and>
    unat (nextId (sp w)) + 1 < 2 ^ 256 \<and> pool (nft w) = this w \<and>
    holders (nft w) (nextId (sp w) + 1) = None \<longrightarrow>
      (\<exists>w''. depositWithURI e w uri = Inr (nextId (sp w) + 1, w''))) \<and>
   deposit e w = depositWithURI e w []"
proof -
  have a: "active (positions (sp w') tokenId) \<and>
      unat (principal (positions (sp w') tokenId)) = unat (msg_value e) mod 2 ^ 128 \<and>
      (2 ^ 128 \<le> unat (msg_value e) \<longrightarrow>
         unat (principal (positions (sp w') tokenId)) < unat (msg_value e))"
    if d: "depositWithURI e w uri = Inr (tokenId, w')"
  proof -
    note pos = deposit_position [OF d]
    have m: "unat (principal (positions (sp w') tokenId)) = unat (msg_value e) mod 2 ^ 128"
      by (simp add: pos unat_ucast_down_128)
    have "unat (msg_value e) mod 2 ^ 128 < unat (msg_value e)"
      if big: "2 ^ 128 \<le> unat (msg_value e)"
    proof -
      have "unat (msg_value e) mod 2 ^ 128 < 2 ^ 128" by simp
      then show ?thesis using big by (rule less_le_trans)
    qed
    with m show ?thesis by (simp add: pos)
  qed
  have b: "\<exists>w''. depositWithURI e w uri = Inr (nextId (sp w) + 1, w'')"
    if "2 ^ 128 \<le> unat (msg_value e) \<and> \<not> entered (sp w) \<and>
      unat (nextId (sp w)) + 1 < 2 ^ 256 \<and> pool (nft w) = this w \<and>
      holders (nft w) (nextId (sp w) + 1) = None"
    using that deposit_succeeds [of e w uri] by blast
  from a b deposit_eq [of e w] show ?thesis by blast
qed

theorem deposit_truncates_principal_witness:
  "(2 :: nat) ^ 128 \<le> unat (msg_value (at_time alice (2 ^ 128 + 7) 0)) \<and>
   (\<exists>w'. deposit (at_time alice (2 ^ 128 + 7) 0) world0 = Inr (1, w') \<and>
         active (positions (sp w') 1) \<and>
         unat (principal (positions (sp w') 1)) = 7)"
proof -
  let ?e = "at_time alice (2 ^ 128 + 7) 0"
  have v: "(2 :: nat) ^ 128 \<le> unat (msg_value ?e)"
    by (simp add: at_time_def)
  have m: "unat (msg_value ?e) mod 2 ^ 128 = 7"
    by (simp add: at_time_def)
  have w: "\<not> entered (sp world0)" "unat (nextId (sp world0)) + 1 < 2 ^ 256"
    "pool (nft world0) = this world0" "holders (nft world0) (nextId (sp world0) + 1) = None"
    and one: "nextId (sp world0) + 1 = 1"
    by (simp_all add: world0_def authority0_def)
  have eq: "deposit ?e world0 = depositWithURI ?e world0 []"
    using deposit_truncates_principal [of ?e world0 "[]"] by blast
  have "\<exists>w''. depositWithURI ?e world0 [] = Inr (nextId (sp world0) + 1, w'')"
    using deposit_truncates_principal [of ?e world0 "[]"] v w by blast
  then obtain w' where d: "depositWithURI ?e world0 [] = Inr (1, w')"
    by (auto simp only: one)
  have "active (positions (sp w') 1) \<and>
      unat (principal (positions (sp w') 1)) = unat (msg_value ?e) mod 2 ^ 128"
    using deposit_truncates_principal [of ?e world0 "[]" 1 w'] d by blast
  then have "active (positions (sp w') 1) \<and> unat (principal (positions (sp w') 1)) = 7"
    by (simp only: m)
  with d eq have "deposit ?e world0 = Inr (1, w') \<and> active (positions (sp w') 1) \<and>
      unat (principal (positions (sp w') 1)) = 7"
    by (simp only:)
  then show ?thesis using v by blast
qed


subsection \<open>What every reachable world satisfies\<close>

text \<open>
  The side conditions used above hold in every world the contracts can be in between
  transactions: the constructor establishes that the guard is not entered, that the
  rate respects the cap and that no position exists, and every transaction keeps the
  first two and leaves every id it does not hand out unwritten.
\<close>

lemma constructor_establishes:
  assumes "pool_constructor e self authority bps receipt = Inr w"
  shows "aprBps (sp w) \<le> 5000" and "\<not> entered (sp w)" and "nextId (sp w) = 0"
    and "\<not> active (positions (sp w) tokenId)"
  using assms by (auto simp: pool_constructor_def split: if_splits)

lemma exec_keeps_guard_and_cap:
  assumes "\<not> entered (sp w)" and "aprBps (sp w) \<le> 5000"
  shows "\<not> entered (sp (exec t w)) \<and> aprBps (sp (exec t w)) \<le> 5000"
proof (cases "call (fst t) (snd t) w")
  case (Inl x)
  with assms show ?thesis by (simp add: exec_def)
next
  case (Inr w')
  from call_sp [OF Inr] assms have "\<not> entered (sp w') \<and> aprBps (sp w') \<le> 5000"
    by auto
  with Inr show ?thesis by (simp add: exec_def)
qed

lemma run_keeps_guard_and_cap:
  "\<not> entered (sp w) \<Longrightarrow> aprBps (sp w) \<le> 5000 \<Longrightarrow>
     \<not> entered (sp (run w ts)) \<and> aprBps (sp (run w ts)) \<le> 5000"
proof (induction ts arbitrary: w)
  case Nil
  then show ?case by (simp add: run_def)
next
  case (Cons t ts)
  have "run w (t # ts) = run (exec t w) ts" by (simp add: run_def)
  with Cons.IH [of "exec t w"] exec_keeps_guard_and_cap [OF Cons.prems, of t]
  show ?case by simp
qed


lemma call_unborn:
  assumes "call e c w = Inr w'" and "\<not> created w' tokenId"
  shows "positions (sp w') tokenId = positions (sp w) tokenId"
proof -
  consider (apr) bps where "sp w' = (sp w)\<lparr>aprBps := bps\<rparr>"
    | (dep) "unat (nextId (sp w)) + 1 < 2 ^ 256"
        "sp w' = (sp w)\<lparr>nextId := nextId (sp w) + 1,
               positions := (positions (sp w))
                 (nextId (sp w) + 1 := \<lparr>principal = ucast (msg_value e),
                                         start = ucast (block_timestamp e),
                                         active = True\<rparr>),
               balance := balance (sp w) + unat (msg_value e)\<rparr>"
    | (same) "sp w' = sp w"
    using call_sp [OF assms(1)] by blast
  then show ?thesis
  proof cases
    case dep
    have "0 < nextId (sp w) + 1"
      using word_succ_less(1) [OF dep(1)] by (rule le_less_trans [rotated]) simp
    with assms(2) dep(2) have "tokenId \<noteq> nextId (sp w) + 1"
      by (auto simp: created_def)
    with dep(2) show ?thesis by simp
  qed simp_all
qed

lemma exec_unborn: "unborn w \<Longrightarrow> unborn (exec t w)"
proof (cases "call (fst t) (snd t) w")
  case (Inl x)
  assume "unborn w"
  with Inl show ?thesis by (simp add: exec_def)
next
  case (Inr w')
  assume u: "unborn w"
  have "positions (sp w') tokenId = \<lparr>principal = 0, start = 0, active = False\<rparr>"
    if n: "\<not> created w' tokenId" for tokenId
  proof -
    have "\<not> created w tokenId"
      using n call_positions(1) [OF Inr] by (auto simp: created_def)
    with u have "positions (sp w) tokenId = \<lparr>principal = 0, start = 0, active = False\<rparr>"
      by (simp add: unborn_def)
    with call_unborn [OF Inr n] show ?thesis by simp
  qed
  with Inr show ?thesis by (simp add: exec_def unborn_def)
qed

lemma run_unborn: "unborn w \<Longrightarrow> unborn (run w ts)"
proof (induction ts arbitrary: w)
  case Nil
  then show ?case by (simp add: run_def)
next
  case (Cons t ts)
  have "run w (t # ts) = run (exec t w) ts" by (simp add: run_def)
  with Cons.IH [OF exec_unborn [OF Cons.prems]] show ?case by simp
qed

lemma constructor_unborn:
  "pool_constructor e self authority bps receipt = Inr w \<Longrightarrow> unborn w"
  by (auto simp: pool_constructor_def unborn_def split: if_splits)

end
